theory Spec2Isabelle
  imports Main "HOL-Library.Multiset"
begin

section \<open>Values and collaborators of cli.js\<close>

text \<open>
  A rejection value is kept as the text that a template literal makes of it
  (\<^verbatim>\<open>`${reason}`\<close>). A promise is represented by the state it settles in.
\<close>

type_synonym reason = string

datatype 'a promise = Resolved 'a | Rejected reason

text \<open>
  \<^verbatim>\<open>readSass\<close> resolves either with the rendered text
  (\<^verbatim>\<open>result.css.toString()\<close>) or with the empty array \<^verbatim>\<open>[]\<close>.
\<close>

datatype content = Css string | EmptyArray

text \<open>
  What \<^verbatim>\<open>c.writeFile()\<close> resolves with: the fields the pipeline reads.
  \<^verbatim>\<open>messageList\<close> is \<open>None\<close> when the field is absent or null.
\<close>

record artifact =
  outputFilePath :: string
  messageList :: "string list option"

text \<open>The object \<^verbatim>\<open>creator.create\<close> resolves with; the field is the outcome of calling its \<^verbatim>\<open>writeFile()\<close>.\<close>

record dts =
  writeFile :: "artifact promise"

record creator =
  create :: "string \<Rightarrow> content \<Rightarrow> bool \<Rightarrow> dts promise"

record creator_options =
  rootDir :: string
  searchDir :: string
  outDir :: "string option"
  camelCase :: bool
  dropExtension :: bool

datatype glob_outcome = GlobErr reason | GlobOk "string list option"

text \<open>
  The modules the file imports, as functions: \<^verbatim>\<open>sass.render\<close> with the merged
  \<^verbatim>\<open>sassConfig\<close> and the tilde importer (\<open>Inl\<close> is \<^verbatim>\<open>err\<close>, \<open>Inr\<close> is
  \<^verbatim>\<open>result.css.toString()\<close>), the three colours of \<^verbatim>\<open>chalk\<close>,
  \<^verbatim>\<open>fs.existsSync\<close>, the expression
  \<^verbatim>\<open>path.join(searchDir, argv.p).trim().replace(/\\/g, '/')\<close>, \<^verbatim>\<open>process.cwd()\<close>,
  \<^verbatim>\<open>new DtsCreator\<close> and \<^verbatim>\<open>glob\<close> (pattern, ignore option).
\<close>

record env =
  sass_render :: "string \<Rightarrow> reason + string"
  chalk_red :: "string \<Rightarrow> string"
  chalk_yellow :: "string \<Rightarrow> string"
  chalk_green :: "string \<Rightarrow> string"
  fs_existsSync :: "string \<Rightarrow> bool"
  path_join_trim :: "string \<Rightarrow> string \<Rightarrow> string"
  process_cwd :: string
  new_DtsCreator :: "creator_options \<Rightarrow> creator"
  glob :: "string \<Rightarrow> string option \<Rightarrow> glob_outcome"

text \<open>The options \<^verbatim>\<open>main\<close> reads from \<^verbatim>\<open>argv\<close>.\<close>

record argv =
  argv_h :: bool
  argv_inputDir :: "string option"
  argv_o :: "string option"
  argv_c :: bool
  argv_p :: string
  argv_w :: bool
  argv_d :: bool
  argv_v :: bool
  argv_i :: "string option"

section \<open>Effects\<close>

text \<open>
  Every call that leaves the file is an event: the calls of the collaborators and the
  lines written to the console. A pipeline yields its events in the order it makes them.
\<close>

datatype event =
    SassRender string
  | CreatorCreate string content bool
  | DtsWriteFile dts
  | ConsoleInfo string
  | ConsoleWarn string
  | ConsoleError string
  | ShowHelp
  | Glob string "string option"
  | ChokidarWatch string "string option"

text \<open>
  A step of a pipeline is an event of its own or a call of one of the two callbacks it
  was given; the call carries what the callback does, \<open>handleError msg\<close> or
  \<open>handleWarning msg\<close>, to be run when the step is scheduled. A callback is a total
  function: it returns and does not throw, as the two handlers of this file do.
\<close>

datatype 'k step = Emit event | OnError 'k | OnWarning 'k

type_synonym ('k, 'a) async = "'k step list \<times> 'a promise"

definition then_p :: "('k, 'a) async \<Rightarrow> ('a \<Rightarrow> ('k, 'b) async) \<Rightarrow> ('k, 'b) async" where
  "then_p p f =
     (case p of
        (tr, Rejected r) \<Rightarrow> (tr, Rejected r)
      | (tr, Resolved x) \<Rightarrow> (case f x of (tr', q) \<Rightarrow> (tr @ tr', q)))"

definition catch_p :: "('k, 'a) async \<Rightarrow> (reason \<Rightarrow> ('k, 'a) async) \<Rightarrow> ('k, 'a) async" where
  "catch_p p f =
     (case p of
        (tr, Resolved x) \<Rightarrow> (tr, Resolved x)
      | (tr, Rejected r) \<Rightarrow> (case f r of (tr', q) \<Rightarrow> (tr @ tr', q)))"

text \<open>
  \<^verbatim>\<open>Promise.all\<close>: resolved with all the values when every promise resolved, rejected
  as soon as one is.
\<close>

fun promise_all :: "'a promise list \<Rightarrow> 'a list promise" where
  "promise_all [] = Resolved []"
| "promise_all (Rejected r # ps) = Rejected r"
| "promise_all (Resolved x # ps) =
     (case promise_all ps of Rejected r \<Rightarrow> Rejected r | Resolved xs \<Rightarrow> Resolved (x # xs))"

text \<open>
  The event loop runs the pending pipelines one step at a time. A schedule names, turn
  by turn, the pipeline that makes its next step; a turn given to a pipeline that has
  finished (or does not exist) is lost, and when the schedule is used up the pipelines
  left run one after the other. Letting a turn be a single step allows every order the
  event loop can produce, and more.
\<close>

fun interleave :: "nat list \<Rightarrow> 'a list list \<Rightarrow> 'a list" where
  "interleave [] ts = concat ts"
| "interleave (i # sched) ts =
     (if i < length ts
      then (case ts ! i of
              [] \<Rightarrow> interleave sched ts
            | x # t \<Rightarrow> x # interleave sched (ts[i := t]))
      else interleave sched ts)"

text \<open>
  The orders in which pending pipelines can make their steps, each pipeline keeping its
  own order: \<open>merges ts zs\<close> holds when \<open>zs\<close> is such an order of the steps of
  \<open>ts\<close>. Every one of them is the result of a schedule (lemma \<open>interleave_complete\<close>).
\<close>

inductive merges :: "'a list list \<Rightarrow> 'a list \<Rightarrow> bool" where
  merges_done: "concat ts = [] \<Longrightarrow> merges ts []"
| merges_step: "i < length ts \<Longrightarrow> ts ! i = x # t \<Longrightarrow> merges (ts[i := t]) zs
                \<Longrightarrow> merges ts (x # zs)"

section \<open>JavaScript values\<close>

text \<open>Truthiness of an optional string: \<^verbatim>\<open>undefined\<close> and \<^verbatim>\<open>''\<close> are falsy.\<close>

fun truthy :: "string option \<Rightarrow> bool" where
  "truthy None = False"
| "truthy (Some s) = (s \<noteq> [])"

definition newline :: string where
  "newline = [CHR 0x0A]"

text \<open>The decimal text of a counter in a template literal.\<close>

definition digit :: "nat \<Rightarrow> char" where
  "digit d = ''0123456789'' ! d"

fun decimal :: "nat \<Rightarrow> string" where
  "decimal n = (if 10 \<le> n then decimal (n div 10) @ [digit (n mod 10)] else [digit n])"

declare decimal.simps [simp del]

section \<open>readSass\<close>

text \<open>
  The callback of \<^verbatim>\<open>sass.render\<close> tests \<^verbatim>\<open>err && (relativeTo && relativeTo !== '/')\<close>
  and then \<^verbatim>\<open>err && (!relativeTo || relativeTo === '/')\<close>; under \<^verbatim>\<open>err\<close> the second
  test is the negation of the first (lemma \<open>readSass_tests\<close> below), so the \<open>else\<close>
  of the model is the second branch and the last \<^verbatim>\<open>return\<close> is reached only
  without \<^verbatim>\<open>err\<close>.
\<close>

definition readSass :: "env \<Rightarrow> string \<Rightarrow> string option \<Rightarrow> ('k, content) async" where
  "readSass e pathName relativeTo =
     ([Emit (SassRender pathName)],
      (case sass_render e pathName of
         Inl err \<Rightarrow>
           if truthy relativeTo \<and> relativeTo \<noteq> Some ''/'' then Resolved EmptyArray
           else Rejected err
       | Inr css \<Rightarrow> Resolved (Css css)))"

section \<open>createTypings\<close>

definition createTypings ::
  "env \<Rightarrow> string \<Rightarrow> creator \<Rightarrow> bool \<Rightarrow> (string \<Rightarrow> 'k) \<Rightarrow> (string \<Rightarrow> 'k) \<Rightarrow> bool
     \<Rightarrow> ('k, artifact option) async" where
  "createTypings e pathName cr cache handleError handleWarning verbose =
     catch_p
       (then_p
          (then_p
             (then_p (readSass e pathName None)
                (\<lambda>content. ([Emit (CreatorCreate pathName content cache)],
                             create cr pathName content cache)))
             (\<lambda>c. ([Emit (DtsWriteFile c)], writeFile c)))
          (\<lambda>c. ((if verbose
                  then [Emit (ConsoleInfo (''Created '' @ chalk_green e (outputFilePath c)))]
                  else [])
                 @ (case messageList c of
                      None \<Rightarrow> []
                    | Some ms \<Rightarrow>
                        map (\<lambda>message.
                               OnWarning (handleWarning
                                 (chalk_yellow e (''WARNING: '' @ pathName) @ newline @ message)))
                            ms),
                 Resolved (Some c))))
       (\<lambda>reason.
          ([OnError (handleError (chalk_red e (''ERROR: '' @ pathName) @ newline @ reason))],
           Resolved None))"

section \<open>The two accounting functions\<close>

text \<open>
  The variables of one accounting call: \<^verbatim>\<open>warnings\<close> and \<^verbatim>\<open>errors\<close>, and the
  events made so far. Both functions declare the same two handlers.
\<close>

record cycle =
  log :: "event list"
  warnings :: nat
  errors :: nat

definition handleError :: "string \<Rightarrow> cycle \<Rightarrow> cycle" where
  "handleError error s = s\<lparr>log := log s @ [ConsoleError error], errors := errors s + 1\<rparr>"

definition handleWarning :: "string \<Rightarrow> cycle \<Rightarrow> cycle" where
  "handleWarning warning s = s\<lparr>log := log s @ [ConsoleWarn warning], warnings := warnings s + 1\<rparr>"

fun perform :: "(cycle \<Rightarrow> cycle) step \<Rightarrow> cycle \<Rightarrow> cycle" where
  "perform (Emit ev) s = s\<lparr>log := log s @ [ev]\<rparr>"
| "perform (OnError k) s = k s"
| "perform (OnWarning k) s = k s"

definition onComplete_watch :: "string \<Rightarrow> cycle \<Rightarrow> cycle" where
  "onComplete_watch pathName s =
     (let s1 = (if warnings s + errors s > 0
                then s\<lparr>log := log s @
                       [ConsoleInfo (pathName @ '': '' @ decimal (warnings s) @ '' warnings, ''
                                     @ decimal (errors s) @ '' errors'')]\<rparr>
                else s)
      in s1\<lparr>warnings := 0, errors := 0\<rparr>)"

definition onComplete_files :: "cycle \<Rightarrow> cycle" where
  "onComplete_files s =
     (let s1 = (if warnings s + errors s > 0
                then s\<lparr>log := log s @
                       [ConsoleInfo (''Completed with '' @ decimal (warnings s) @ '' warnings and ''
                                     @ decimal (errors s) @ '' errors.'')]\<rparr>
                else s)
      in s1\<lparr>errors := 0, warnings := 0\<rparr>)"

text \<open>
  One call of the handler that \<^verbatim>\<open>createTypingsForFileOnWatch\<close> returns: its events, in
  order. The counters are variables of the call.
\<close>

definition createTypingsForFileOnWatch :: "env \<Rightarrow> creator \<Rightarrow> bool \<Rightarrow> bool \<Rightarrow> string \<Rightarrow> event list" where
  "createTypingsForFileOnWatch e cr cache verbose pathName =
     (let s0 = \<lparr>log = [], warnings = 0, errors = 0\<rparr>;
          run = createTypings e pathName cr cache handleError handleWarning verbose;
          s = fold perform (fst run) s0
      in case snd run of
           Resolved _ \<Rightarrow> log (onComplete_watch pathName s)
         | Rejected _ \<Rightarrow> log s)"

text \<open>
  One call of the function that \<^verbatim>\<open>createTypingsForFiles\<close> returns: the pipelines of
  all the paths are started, their steps run as the schedule says, and \<^verbatim>\<open>onComplete\<close>
  runs when \<^verbatim>\<open>Promise.all\<close> resolves.
\<close>

definition createTypingsForFiles ::
  "env \<Rightarrow> creator \<Rightarrow> bool \<Rightarrow> bool \<Rightarrow> string list \<Rightarrow> nat list \<Rightarrow> event list" where
  "createTypingsForFiles e cr cache verbose pathNames sched =
     (let s0 = \<lparr>log = [], warnings = 0, errors = 0\<rparr>;
          runs = map (\<lambda>pathName.
                        createTypings e pathName cr cache handleError handleWarning verbose)
                     pathNames;
          s = fold perform (interleave sched (map fst runs)) s0
      in case promise_all (map snd runs) of
           Resolved _ \<Rightarrow> log (onComplete_files s)
         | Rejected _ \<Rightarrow> log s)"

section \<open>main\<close>

text \<open>
  The watcher's events are pairs of an event name and a path. \<^verbatim>\<open>main\<close> registers one
  handler for \<^verbatim>\<open>add\<close> and one for \<^verbatim>\<open>change\<close>, so each event of these two names
  is one call of the handler; calls that are pending together run as the schedule says.
\<close>

definition watcher_on ::
  "(string \<Rightarrow> event list) \<Rightarrow> nat list \<Rightarrow> (string \<times> string) list \<Rightarrow> event list" where
  "watcher_on handler sched fs_events =
     interleave sched
       (map (\<lambda>(name, pathName). handler pathName)
            (filter (\<lambda>(name, pathName). name = ''add'' \<or> name = ''change'') fs_events))"

text \<open>
  The events of a run of \<^verbatim>\<open>main\<close>, given the schedule of the event loop and the events
  the watcher delivers.
\<close>

definition main :: "env \<Rightarrow> argv \<Rightarrow> nat list \<Rightarrow> (string \<times> string) list \<Rightarrow> event list" where
  "main e a sched fs_events =
     (if argv_h a then [ShowHelp]
      else case argv_inputDir a of
        None \<Rightarrow> [ShowHelp]
      | Some dir \<Rightarrow>
          if \<not> fs_existsSync e dir
          then [ConsoleError (chalk_red e
                  (''Error: Input directory '' @ dir @ '' doesn'' @ [CHR 0x27] @ ''t exist.''))]
          else
            let filesPattern = path_join_trim e dir (argv_p a);
                cr = new_DtsCreator e
                       \<lparr>rootDir = process_cwd e, searchDir = dir, outDir = argv_o a,
                        camelCase = argv_c a, dropExtension = argv_d a\<rparr>;
                cache = argv_w a
            in if \<not> argv_w a
               then
                 (let globOptions = (if truthy (argv_i a) then argv_i a else None)
                  in Glob filesPattern globOptions #
                     (case glob e filesPattern globOptions of
                        GlobErr err \<Rightarrow> [ConsoleError err]
                      | GlobOk None \<Rightarrow> [ConsoleInfo ''Creating typings for 0 files'']
                      | GlobOk (Some pathNames) \<Rightarrow>
                          if length pathNames = 0
                          then [ConsoleInfo ''Creating typings for 0 files'']
                          else ConsoleInfo (''Creating typings for ''
                                            @ decimal (length pathNames) @ '' files'' @ newline)
                               # createTypingsForFiles e cr cache (argv_v a) pathNames sched))
               else
                 (let chokidarOptions = (if truthy (argv_i a) then argv_i a else None)
                  in ConsoleInfo (''Watching '' @ filesPattern @ '' ...'' @ newline)
                     # ChokidarWatch filesPattern chokidarOptions
                     # watcher_on (createTypingsForFileOnWatch e cr cache (argv_v a))
                         sched fs_events))"

section \<open>Notions used to state the properties\<close>

text \<open>The two messages, as the template literals build them: title line, line break, detail.\<close>

definition errorMessage :: "env \<Rightarrow> string \<Rightarrow> reason \<Rightarrow> string" where
  "errorMessage e pathName detail = chalk_red e (''ERROR: '' @ pathName) @ newline @ detail"

definition warningMessage :: "env \<Rightarrow> string \<Rightarrow> string \<Rightarrow> string" where
  "warningMessage e pathName message =
     chalk_yellow e (''WARNING: '' @ pathName) @ newline @ message"

text \<open>
  What the three steps of the pipeline give for a path: the detail of the first step
  that fails (render, generate, persist), or the persisted artifact.
\<close>

definition outcome :: "env \<Rightarrow> creator \<Rightarrow> bool \<Rightarrow> string \<Rightarrow> reason + artifact" where
  "outcome e cr cache pathName =
     (case sass_render e pathName of
        Inl err \<Rightarrow> Inl err
      | Inr css \<Rightarrow>
          (case create cr pathName (Css css) cache of
             Rejected r \<Rightarrow> Inl r
           | Resolved c \<Rightarrow>
               (case writeFile c of
                  Rejected r \<Rightarrow> Inl r
                | Resolved a \<Rightarrow> Inr a)))"

definition warnings_of :: "artifact \<Rightarrow> string list" where
  "warnings_of a = (case messageList a of None \<Rightarrow> [] | Some ms \<Rightarrow> ms)"

definition path_warnings :: "env \<Rightarrow> creator \<Rightarrow> bool \<Rightarrow> string \<Rightarrow> nat" where
  "path_warnings e cr cache pathName =
     (case outcome e cr cache pathName of Inl _ \<Rightarrow> 0 | Inr a \<Rightarrow> length (warnings_of a))"

definition path_errors :: "env \<Rightarrow> creator \<Rightarrow> bool \<Rightarrow> string \<Rightarrow> nat" where
  "path_errors e cr cache pathName =
     (case outcome e cr cache pathName of Inl _ \<Rightarrow> 1 | Inr _ \<Rightarrow> 0)"

fun is_callback :: "'k step \<Rightarrow> bool" where
  "is_callback (Emit _) = False"
| "is_callback (OnError _) = True"
| "is_callback (OnWarning _) = True"

fun is_OnError :: "'k step \<Rightarrow> bool" where
  "is_OnError (OnError _) = True"
| "is_OnError _ = False"

fun is_OnWarning :: "'k step \<Rightarrow> bool" where
  "is_OnWarning (OnWarning _) = True"
| "is_OnWarning _ = False"

text \<open>
  A pipeline run with callbacks that only hand their message back shows which callback
  it calls with which message; \<open>with_handlers\<close> puts the callbacks in, and
  \<open>console_of\<close> is the event a step leaves under the two handlers of this file.
\<close>

fun with_handlers :: "(string \<Rightarrow> 'k) \<Rightarrow> (string \<Rightarrow> 'k) \<Rightarrow> string step \<Rightarrow> 'k step" where
  "with_handlers hE hW (Emit ev) = Emit ev"
| "with_handlers hE hW (OnError m) = OnError (hE m)"
| "with_handlers hE hW (OnWarning m) = OnWarning (hW m)"

fun console_of :: "string step \<Rightarrow> event" where
  "console_of (Emit ev) = ev"
| "console_of (OnError m) = ConsoleError m"
| "console_of (OnWarning m) = ConsoleWarn m"

definition pipeline_steps :: "env \<Rightarrow> creator \<Rightarrow> bool \<Rightarrow> bool \<Rightarrow> string \<Rightarrow> string step list" where
  "pipeline_steps e cr cache verbose pathName =
     fst (createTypings e pathName cr cache (\<lambda>m. m) (\<lambda>m. m) verbose)"

definition watch_summary :: "string \<Rightarrow> nat \<Rightarrow> nat \<Rightarrow> event list" where
  "watch_summary pathName w n =
     (if w + n > 0
      then [ConsoleInfo (pathName @ '': '' @ decimal w @ '' warnings, ''
                         @ decimal n @ '' errors'')]
      else [])"

definition batch_summary :: "nat \<Rightarrow> nat \<Rightarrow> event list" where
  "batch_summary w n =
     (if w + n > 0
      then [ConsoleInfo (''Completed with '' @ decimal w @ '' warnings and ''
                         @ decimal n @ '' errors.'')]
      else [])"

definition cycle0 :: cycle where
  "cycle0 = \<lparr>log = [], warnings = 0, errors = 0\<rparr>"

definition is_render :: "event \<Rightarrow> bool" where
  "is_render ev = (case ev of SassRender _ \<Rightarrow> True | _ \<Rightarrow> False)"

text \<open>A line of \<^verbatim>\<open>console.info\<close> that starts as the summary of a batch does.\<close>

definition is_batch_summary :: "event \<Rightarrow> bool" where
  "is_batch_summary ev =
     (case ev of ConsoleInfo l \<Rightarrow> take 15 l = ''Completed with '' | _ \<Rightarrow> False)"

section \<open>A concrete project\<close>

text \<open>
  Four files: \<open>a.scss\<close> is written with two warnings, \<open>b.scss\<close> does not render,
  \<open>c.scss\<close> is written with an empty warning list and \<open>d.scss\<close> with no warning list.
\<close>

definition demo_creator :: creator where
  "demo_creator =
     \<lparr>create = (\<lambda>pathName content cache.
        Resolved \<lparr>writeFile = Resolved
          \<lparr>outputFilePath = pathName @ ''.d.ts'',
           messageList = (if pathName = ''a.scss'' then Some [''w1'', ''w2'']
                          else if pathName = ''c.scss'' then Some []
                          else None)\<rparr>\<rparr>)\<rparr>"

definition demo_env :: env where
  "demo_env =
     \<lparr>sass_render = (\<lambda>pathName. if pathName = ''b.scss'' then Inl ''boom'' else Inr ''.x{}''),
      chalk_red = (\<lambda>s. s),
      chalk_yellow = (\<lambda>s. s),
      chalk_green = (\<lambda>s. s),
      fs_existsSync = (\<lambda>dir. True),
      path_join_trim = (\<lambda>dir pat. dir @ ''/'' @ pat),
      process_cwd = ''/'',
      new_DtsCreator = (\<lambda>opts. demo_creator),
      glob = (\<lambda>pat ign. if pat = ''src/*.scss'' then GlobOk (Some [''a.scss'', ''b.scss''])
                        else if pat = ''none/*.scss'' then GlobOk (Some [])
                        else GlobErr ''EACCES'')\<rparr>"

definition demo_argv :: argv where
  "demo_argv =
     \<lparr>argv_h = False, argv_inputDir = Some ''src'', argv_o = None, argv_c = False,
      argv_p = ''*.scss'', argv_w = False, argv_d = False, argv_v = False, argv_i = None\<rparr>"

section \<open>Promises and schedules\<close>

lemma readSass_tests:
  "(\<not> truthy relativeTo \<or> relativeTo = Some ''/'') = (\<not> (truthy relativeTo \<and> relativeTo \<noteq> Some ''/''))"
  by auto

lemma then_p_simps:
  "then_p (tr, Rejected r) f = (tr, Rejected r)"
  "then_p (tr, Resolved x) f = (tr @ fst (f x), snd (f x))"
  by (simp_all add: then_p_def split: prod.splits)

lemma catch_p_simps:
  "catch_p (tr, Resolved x) f = (tr, Resolved x)"
  "catch_p (tr, Rejected r) f = (tr @ fst (f r), snd (f r))"
  by (simp_all add: catch_p_def split: prod.splits)

lemma createTypings_cases:
  "createTypings e p cr cache hE hW verbose =
     (case sass_render e p of
        Inl err \<Rightarrow> ([Emit (SassRender p), OnError (hE (errorMessage e p err))], Resolved None)
      | Inr css \<Rightarrow>
          (case create cr p (Css css) cache of
             Rejected r \<Rightarrow>
               ([Emit (SassRender p), Emit (CreatorCreate p (Css css) cache),
                 OnError (hE (errorMessage e p r))], Resolved None)
           | Resolved c \<Rightarrow>
               (case writeFile c of
                  Rejected r \<Rightarrow>
                    ([Emit (SassRender p), Emit (CreatorCreate p (Css css) cache),
                      Emit (DtsWriteFile c), OnError (hE (errorMessage e p r))], Resolved None)
                | Resolved a \<Rightarrow>
                    ([Emit (SassRender p), Emit (CreatorCreate p (Css css) cache),
                      Emit (DtsWriteFile c)]
                     @ (if verbose
                        then [Emit (ConsoleInfo (''Created '' @ chalk_green e (outputFilePath a)))]
                        else [])
                     @ map (\<lambda>m. OnWarning (hW (warningMessage e p m))) (warnings_of a),
                     Resolved (Some a)))))"
  by (simp add: createTypings_def readSass_def then_p_simps catch_p_simps errorMessage_def
      warningMessage_def warnings_of_def split: sum.splits promise.splits option.splits)

lemma createTypings_natural:
  "createTypings e p cr cache hE hW verbose =
     (map (with_handlers hE hW) (pipeline_steps e cr cache verbose p),
      snd (createTypings e p cr cache (\<lambda>m. m) (\<lambda>m. m) verbose))"
  unfolding pipeline_steps_def
  by (simp add: createTypings_cases [of e p cr cache hE hW]
        createTypings_cases [of e p cr cache "\<lambda>m. m" "\<lambda>m. m"] comp_def
      split: sum.splits promise.splits)

lemma createTypings_resolves:
  "snd (createTypings e p cr cache hE hW verbose) =
     Resolved (case outcome e cr cache p of Inl _ \<Rightarrow> None | Inr a \<Rightarrow> Some a)"
  by (simp add: createTypings_cases outcome_def split: sum.splits promise.splits)

lemma promise_all_Resolved: "promise_all (map Resolved xs) = Resolved xs"
  by (induction xs) simp_all

lemma promise_all_createTypings:
  "promise_all (map (\<lambda>p. snd (createTypings e p cr cache hE hW verbose)) ps) =
     Resolved (map (\<lambda>p. case outcome e cr cache p of Inl _ \<Rightarrow> None | Inr a \<Rightarrow> Some a) ps)"
proof -
  have "map (\<lambda>p. snd (createTypings e p cr cache hE hW verbose)) ps =
        map Resolved (map (\<lambda>p. case outcome e cr cache p of Inl _ \<Rightarrow> None | Inr a \<Rightarrow> Some a) ps)"
    by (simp add: createTypings_resolves)
  then show ?thesis
    by (simp only: promise_all_Resolved)
qed

lemma concat_update_Cons:
  assumes "i < length ts" and "ts ! i = x # t"
  shows "mset (concat ts) = add_mset x (mset (concat (ts[i := t])))"
proof -
  have "ts = take i ts @ (x # t) # drop (Suc i) ts"
    using assms by (metis id_take_nth_drop)
  moreover have "ts[i := t] = take i ts @ t # drop (Suc i) ts"
    using assms by (simp add: upd_conv_take_nth_drop)
  ultimately show ?thesis
    by (metis (no_types, lifting) concat.simps(2) concat_append mset.simps(2) union_mset_add_mset_right mset_append append_Cons)
qed

lemma mset_interleave: "mset (interleave sched ts) = mset (concat ts)"
proof (induction sched arbitrary: ts)
  case Nil
  show ?case by simp
next
  case (Cons i sched)
  show ?case
  proof (cases "i < length ts")
    case False
    then show ?thesis using Cons.IH by simp
  next
    case True
    show ?thesis
    proof (cases "ts ! i")
      case Nil
      then show ?thesis using True Cons.IH by simp
    next
      case (Cons x t)
      then show ?thesis
        using True Cons.IH [of "ts[i := t]"] concat_update_Cons [of i ts x t] by simp
    qed
  qed
qed

lemma interleave_complete: "merges ts zs \<Longrightarrow> \<exists>sched. interleave sched ts = zs"
proof (induction rule: merges.induct)
  case (merges_done ts)
  then have "interleave [] ts = []" by simp
  then show ?case by blast
next
  case (merges_step i ts x t zs)
  then obtain sched where "interleave sched (ts[i := t]) = zs" by blast
  then have "interleave (i # sched) ts = x # zs"
    using merges_step.hyps by simp
  then show ?case by blast
qed

lemma interleave_map: "interleave sched (map (map f) ts) = map f (interleave sched ts)"
proof (induction sched arbitrary: ts)
  case Nil
  show ?case by (simp add: map_concat)
next
  case (Cons i sched)
  show ?case
  proof (cases "i < length ts")
    case False
    then show ?thesis using Cons.IH by simp
  next
    case True
    show ?thesis
    proof (cases "ts ! i")
      case Nil
      then show ?thesis using True Cons.IH by simp
    next
      case (Cons x t)
      then show ?thesis
        using True Cons.IH [of "ts[i := t]"] by (simp add: map_update)
    qed
  qed
qed

lemma fold_perform_handlers:
  "fold perform (map (with_handlers handleError handleWarning) tr) s =
     \<lparr>log = log s @ map console_of tr,
      warnings = warnings s + length (filter is_OnWarning tr),
      errors = errors s + length (filter is_OnError tr)\<rparr>"
proof (induction tr arbitrary: s)
  case Nil
  show ?case by simp
next
  case (Cons st tr)
  show ?case
    by (cases st) (simp_all add: Cons.IH, simp_all add: handleError_def handleWarning_def)
qed

section \<open>The log of an accounting call\<close>

lemma length_filter_concat:
  "length (filter P (concat ts)) = sum_list (map (\<lambda>t. length (filter P t)) ts)"
  by (induction ts) simp_all

lemma length_filter_interleave:
  "length (filter P (interleave sched ts)) = sum_list (map (\<lambda>t. length (filter P t)) ts)"
proof -
  have "length (filter P (interleave sched ts)) = size (filter_mset P (mset (interleave sched ts)))"
    by (simp only: mset_filter [symmetric] size_mset)
  also have "\<dots> = size (filter_mset P (mset (concat ts)))"
    by (simp only: mset_interleave)
  also have "\<dots> = length (filter P (concat ts))"
    by (simp only: mset_filter [symmetric] size_mset)
  finally show ?thesis
    by (simp only: length_filter_concat)
qed

lemma set_interleave: "set (interleave sched ts) = \<Union> (set ` set ts)"
proof -
  have "set (interleave sched ts) = set_mset (mset (interleave sched ts))"
    by simp
  also have "\<dots> = set (concat ts)"
    by (simp only: mset_interleave set_mset_mset)
  finally show ?thesis by simp
qed

lemma pipeline_steps_cases:
  "pipeline_steps e cr cache verbose p =
     (case sass_render e p of
        Inl err \<Rightarrow> [Emit (SassRender p), OnError (errorMessage e p err)]
      | Inr css \<Rightarrow>
          (case create cr p (Css css) cache of
             Rejected r \<Rightarrow>
               [Emit (SassRender p), Emit (CreatorCreate p (Css css) cache),
                OnError (errorMessage e p r)]
           | Resolved c \<Rightarrow>
               (case writeFile c of
                  Rejected r \<Rightarrow>
                    [Emit (SassRender p), Emit (CreatorCreate p (Css css) cache),
                     Emit (DtsWriteFile c), OnError (errorMessage e p r)]
                | Resolved a \<Rightarrow>
                    [Emit (SassRender p), Emit (CreatorCreate p (Css css) cache),
                     Emit (DtsWriteFile c)]
                    @ (if verbose
                       then [Emit (ConsoleInfo (''Created '' @ chalk_green e (outputFilePath a)))]
                       else [])
                    @ map (\<lambda>m. OnWarning (warningMessage e p m)) (warnings_of a))))"
  by (simp add: pipeline_steps_def createTypings_cases split: sum.splits promise.splits)

lemma filter_OnWarning_map [simp]:
  "filter is_OnWarning (map (\<lambda>m. OnWarning (f m)) ms) = map (\<lambda>m. OnWarning (f m)) ms"
  "filter is_OnError (map (\<lambda>m. OnWarning (f m)) ms) = []"
  "filter is_callback (map (\<lambda>m. OnWarning (f m)) ms) = map (\<lambda>m. OnWarning (f m)) ms"
  by (induction ms) simp_all

lemma pipeline_steps_warnings:
  "length (filter is_OnWarning (pipeline_steps e cr cache verbose p)) = path_warnings e cr cache p"
  by (simp add: pipeline_steps_cases path_warnings_def outcome_def
      split: sum.splits promise.splits)

lemma pipeline_steps_errors:
  "length (filter is_OnError (pipeline_steps e cr cache verbose p)) = path_errors e cr cache p"
  by (simp add: pipeline_steps_cases path_errors_def outcome_def
      split: sum.splits promise.splits)

lemma pipeline_steps_callbacks:
  "length (filter is_callback (pipeline_steps e cr cache verbose p)) =
     path_warnings e cr cache p + path_errors e cr cache p"
  by (simp add: pipeline_steps_cases path_warnings_def path_errors_def outcome_def
      split: sum.splits promise.splits)

lemma map_fst_createTypings:
  "map (\<lambda>p. fst (createTypings e p cr cache hE hW verbose)) ps =
     map (map (with_handlers hE hW)) (map (pipeline_steps e cr cache verbose) ps)"
proof -
  have "fst (createTypings e p cr cache hE hW verbose) =
          map (with_handlers hE hW) (pipeline_steps e cr cache verbose p)" for p
    by (subst createTypings_natural) simp
  then show ?thesis by simp
qed

lemma onComplete_files_log:
  "log (onComplete_files s) = log s @ batch_summary (warnings s) (errors s)"
  by (simp add: onComplete_files_def batch_summary_def Let_def)

lemma onComplete_watch_log:
  "log (onComplete_watch p s) = log s @ watch_summary p (warnings s) (errors s)"
  by (simp add: onComplete_watch_def watch_summary_def Let_def)

lemma batch_state:
  "fold perform
     (interleave sched
        (map (\<lambda>p. fst (createTypings e p cr cache handleError handleWarning verbose)) ps))
     cycle0 =
   \<lparr>log = map console_of (interleave sched (map (pipeline_steps e cr cache verbose) ps)),
    warnings = sum_list (map (path_warnings e cr cache) ps),
    errors = sum_list (map (path_errors e cr cache) ps)\<rparr>"
proof -
  let ?tr = "interleave sched (map (pipeline_steps e cr cache verbose) ps)"
  have "fold perform
          (interleave sched
             (map (\<lambda>p. fst (createTypings e p cr cache handleError handleWarning verbose)) ps))
          cycle0 =
        fold perform (map (with_handlers handleError handleWarning) ?tr) cycle0"
    by (simp only: map_fst_createTypings interleave_map)
  also have "\<dots> = \<lparr>log = map console_of ?tr,
                      warnings = length (filter is_OnWarning ?tr),
                      errors = length (filter is_OnError ?tr)\<rparr>"
    by (simp add: fold_perform_handlers cycle0_def)
  also have "length (filter is_OnWarning ?tr) = sum_list (map (path_warnings e cr cache) ps)"
    by (simp add: length_filter_interleave comp_def pipeline_steps_warnings)
  also have "length (filter is_OnError ?tr) = sum_list (map (path_errors e cr cache) ps)"
    by (simp add: length_filter_interleave comp_def pipeline_steps_errors)
  finally show ?thesis .
qed

lemma createTypingsForFiles_log:
  "createTypingsForFiles e cr cache verbose ps sched =
     map console_of (interleave sched (map (pipeline_steps e cr cache verbose) ps))
     @ batch_summary (sum_list (map (path_warnings e cr cache) ps))
                     (sum_list (map (path_errors e cr cache) ps))"
proof -
  have all: "promise_all (map snd (map (\<lambda>p. createTypings e p cr cache handleError handleWarning verbose) ps)) =
      Resolved (map (\<lambda>p. case outcome e cr cache p of Inl _ \<Rightarrow> None | Inr a \<Rightarrow> Some a) ps)"
    using promise_all_createTypings [of e cr cache handleError handleWarning verbose ps]
    by (simp add: comp_def)
  show ?thesis
    unfolding createTypingsForFiles_def Let_def all
    using batch_state [of sched e cr cache verbose ps]
    by (simp add: comp_def cycle0_def onComplete_files_log)
qed

lemma watch_state:
  "fold perform (fst (createTypings e p cr cache handleError handleWarning verbose)) cycle0 =
   \<lparr>log = map console_of (pipeline_steps e cr cache verbose p),
    warnings = path_warnings e cr cache p,
    errors = path_errors e cr cache p\<rparr>"
  by (subst createTypings_natural)
     (simp add: fold_perform_handlers cycle0_def pipeline_steps_warnings pipeline_steps_errors)

lemma createTypingsForFileOnWatch_log:
  "createTypingsForFileOnWatch e cr cache verbose p =
     map console_of (pipeline_steps e cr cache verbose p)
     @ watch_summary p (path_warnings e cr cache p) (path_errors e cr cache p)"
  unfolding createTypingsForFileOnWatch_def Let_def
  using watch_state [of e p cr cache verbose]
  by (simp add: cycle0_def createTypings_resolves onComplete_watch_log)

lemma pipeline_steps_no_summary:
  "filter is_batch_summary (map console_of (pipeline_steps e cr cache verbose p)) = []"
proof -
  have "filter is_batch_summary (map console_of (map (\<lambda>m. OnWarning (f m)) ms)) = []"
    for f :: "string \<Rightarrow> string" and ms
    by (induction ms) (simp_all add: is_batch_summary_def)
  then show ?thesis
    by (simp add: pipeline_steps_cases is_batch_summary_def split: sum.splits promise.splits)
qed

lemma interleave_no_summary:
  "filter is_batch_summary
     (map console_of (interleave sched (map (pipeline_steps e cr cache verbose) ps))) = []"
proof -
  have "\<not> is_batch_summary (console_of st)"
    if "st \<in> set (pipeline_steps e cr cache verbose p)" for st p
  proof -
    have "console_of st \<in> set (map console_of (pipeline_steps e cr cache verbose p))"
      using that by simp
    then show ?thesis
      using pipeline_steps_no_summary [of e cr cache verbose p]
      by (metis filter_empty_conv)
  qed
  then show ?thesis
    by (auto simp add: filter_empty_conv set_interleave)
qed

lemma batch_summary_count:
  "length (filter is_batch_summary (batch_summary w n)) = (if w + n > 0 then 1 else 0)"
  by (simp add: batch_summary_def is_batch_summary_def)

lemma is_callback_with_handlers:
  "length (filter is_callback (map (with_handlers hE hW) tr)) = length (filter is_callback tr)"
proof (induction tr)
  case Nil
  show ?case by simp
next
  case (Cons st tr)
  then show ?case by (cases st) simp_all
qed

lemma createTypings_callbacks:
  "length (filter is_callback (fst (createTypings e p cr cache hE hW verbose))) =
     path_warnings e cr cache p + path_errors e cr cache p"
  by (subst createTypings_natural)
     (simp only: fst_conv is_callback_with_handlers pipeline_steps_callbacks)

lemma length_filter_take_mono:
  "length (filter P (take k xs)) \<le> length (filter P (take (Suc k) xs))"
proof (cases "k < length xs")
  case True
  then show ?thesis by (simp add: take_Suc_conv_app_nth)
next
  case False
  then show ?thesis by simp
qed

lemma prefix_state:
  "fold perform (take k (map (with_handlers handleError handleWarning) tr)) cycle0 =
     \<lparr>log = map console_of (take k tr),
      warnings = length (filter is_OnWarning (take k tr)),
      errors = length (filter is_OnError (take k tr))\<rparr>"
  by (simp add: take_map fold_perform_handlers cycle0_def)

lemma mset_filter_map_interleave:
  "mset (filter P (map f (interleave sched ts))) = mset (filter P (map f (concat ts)))"
proof -
  have "mset (filter P (map f xs)) = filter_mset P (image_mset f (mset xs))" for xs :: "'b list"
    by simp
  then show ?thesis
    by (simp only: mset_interleave)
qed

lemma is_render_simps [simp]:
  "is_render (SassRender p) = True"
  "is_render (CreatorCreate p content cache) = False"
  "is_render (DtsWriteFile c) = False"
  "is_render (ConsoleInfo l) = False"
  "is_render (ConsoleWarn l) = False"
  "is_render (ConsoleError l) = False"
  "is_render ShowHelp = False"
  "is_render (Glob pat ign) = False"
  "is_render (ChokidarWatch pat ign) = False"
  by (simp_all add: is_render_def)

lemma pipeline_steps_render:
  "filter is_render (map console_of (pipeline_steps e cr cache verbose p)) = [SassRender p]"
proof -
  have "filter is_render (map console_of (map (\<lambda>m. OnWarning (f m)) ms)) = []"
    for f :: "string \<Rightarrow> string" and ms
    by (induction ms) simp_all
  then show ?thesis
    by (simp add: pipeline_steps_cases split: sum.splits promise.splits)
qed

lemma createTypingsForFiles_renders:
  "mset (filter is_render (createTypingsForFiles e cr cache verbose ps sched)) =
     mset (map SassRender ps)"
proof -
  have "filter is_render (map console_of (concat (map (pipeline_steps e cr cache verbose) qs))) =
          map SassRender qs" for qs
    by (induction qs) (simp_all add: pipeline_steps_render)
  then have "mset (filter is_render
                (map console_of (interleave sched (map (pipeline_steps e cr cache verbose) ps)))) =
             mset (map SassRender ps)"
    by (simp only: mset_filter_map_interleave)
  moreover have "filter is_render (batch_summary w n) = []" for w n
    by (simp add: batch_summary_def)
  ultimately show ?thesis
    by (simp only: createTypingsForFiles_log filter_append mset_append mset.simps add_0_right)
qed

lemma pipeline_steps_cache:
  "CreatorCreate q content c \<in> set (map console_of (pipeline_steps e cr cache verbose p))
     \<Longrightarrow> c = cache"
  by (auto simp add: pipeline_steps_cases split: sum.splits promise.splits if_splits)

lemma createTypingsForFiles_cache:
  "CreatorCreate q content c \<in> set (createTypingsForFiles e cr cache verbose ps sched)
     \<Longrightarrow> c = cache"
  using pipeline_steps_cache [of q content c e cr cache verbose]
  by (auto simp add: createTypingsForFiles_log set_interleave batch_summary_def split: if_splits)

lemma watcher_on_cache:
  "CreatorCreate q content c
     \<in> set (watcher_on (createTypingsForFileOnWatch e cr cache verbose) sched fs_events)
     \<Longrightarrow> c = cache"
  using pipeline_steps_cache [of q content c e cr cache verbose]
  by (auto simp add: watcher_on_def createTypingsForFileOnWatch_log set_interleave
      watch_summary_def split: if_splits)

section \<open>The concrete project, evaluated\<close>

lemma decimal_digits:
  "decimal 0 = ''0''" "decimal 1 = ''1''" "decimal 2 = ''2''" "decimal 3 = ''3''"
  "decimal (Suc 0) = ''1''" "decimal (Suc (Suc 0)) = ''2''"
  by (simp_all add: decimal.simps digit_def)

lemma outcome_demo:
  "outcome demo_env demo_creator cache ''a.scss'' =
     Inr \<lparr>outputFilePath = ''a.scss.d.ts'', messageList = Some [''w1'', ''w2'']\<rparr>"
  "outcome demo_env demo_creator cache ''b.scss'' = Inl ''boom''"
  "outcome demo_env demo_creator cache ''c.scss'' =
     Inr \<lparr>outputFilePath = ''c.scss.d.ts'', messageList = Some []\<rparr>"
  "outcome demo_env demo_creator cache ''d.scss'' =
     Inr \<lparr>outputFilePath = ''d.scss.d.ts'', messageList = None\<rparr>"
  by (simp_all add: outcome_def demo_env_def demo_creator_def)

lemma demo_env_sel:
  "chalk_red demo_env s = s"
  "chalk_yellow demo_env s = s"
  "chalk_green demo_env s = s"
  "fs_existsSync demo_env dir = True"
  "path_join_trim demo_env dir pat = dir @ ''/'' @ pat"
  "new_DtsCreator demo_env opts = demo_creator"
  "sass_render demo_env pathName = (if pathName = ''b.scss'' then Inl ''boom'' else Inr ''.x{}'')"
  "process_cwd demo_env = ''/''"
  "glob demo_env pat ign =
     (if pat = ''src/*.scss'' then GlobOk (Some [''a.scss'', ''b.scss''])
      else if pat = ''none/*.scss'' then GlobOk (Some [])
      else GlobErr ''EACCES'')"
  by (simp_all add: demo_env_def)

lemma counts_demo:
  "path_warnings demo_env demo_creator cache ''a.scss'' = 2"
  "path_errors demo_env demo_creator cache ''a.scss'' = 0"
  "path_warnings demo_env demo_creator cache ''b.scss'' = 0"
  "path_errors demo_env demo_creator cache ''b.scss'' = 1"
  "path_warnings demo_env demo_creator cache ''c.scss'' = 0"
  "path_errors demo_env demo_creator cache ''c.scss'' = 0"
  by (simp_all add: path_warnings_def path_errors_def outcome_demo warnings_of_def)

lemma steps_demo:
  "pipeline_steps demo_env demo_creator cache verbose ''a.scss'' =
     [Emit (SassRender ''a.scss''), Emit (CreatorCreate ''a.scss'' (Css ''.x{}'') cache),
      Emit (DtsWriteFile \<lparr>writeFile = Resolved
              \<lparr>outputFilePath = ''a.scss.d.ts'', messageList = Some [''w1'', ''w2'']\<rparr>\<rparr>)]
     @ (if verbose then [Emit (ConsoleInfo ''Created a.scss.d.ts'')] else [])
     @ [OnWarning (''WARNING: a.scss'' @ newline @ ''w1''),
        OnWarning (''WARNING: a.scss'' @ newline @ ''w2'')]"
  "pipeline_steps demo_env demo_creator cache verbose ''b.scss'' =
     [Emit (SassRender ''b.scss''), OnError (''ERROR: b.scss'' @ newline @ ''boom'')]"
  "pipeline_steps demo_env demo_creator cache verbose ''c.scss'' =
     [Emit (SassRender ''c.scss''), Emit (CreatorCreate ''c.scss'' (Css ''.x{}'') cache),
      Emit (DtsWriteFile \<lparr>writeFile = Resolved
              \<lparr>outputFilePath = ''c.scss.d.ts'', messageList = Some []\<rparr>\<rparr>)]
     @ (if verbose then [Emit (ConsoleInfo ''Created c.scss.d.ts'')] else [])"
  by (simp_all add: pipeline_steps_cases demo_env_sel demo_creator_def warnings_of_def
      errorMessage_def warningMessage_def)

section \<open>The renderer adapter\<close>

text \<open>
  C4. When \<^verbatim>\<open>sass.render\<close> fails: if \<^verbatim>\<open>relativeTo\<close> is unset or is the root
  \<^verbatim>\<open>'/'\<close>, \<^verbatim>\<open>readSass\<close> rejects with the collaborator's error, and a step chained
  to it with \<^verbatim>\<open>then\<close> is not run; otherwise the failure is suppressed, the promise
  resolves with the empty array, and the chained step runs with the empty array as its
  content. Unset is what the code tests with \<^verbatim>\<open>!relativeTo\<close>: the argument is not
  given, or it is the empty string.
\<close>

theorem readSass_failure:
  fixes f :: "content \<Rightarrow> ('k, 'b) async"
  assumes "sass_render e p = Inl err"
  shows "(readSass e p relativeTo :: ('k, content) async) =
           ([Emit (SassRender p)],
            if \<not> truthy relativeTo \<or> relativeTo = Some ''/''
            then Rejected err else Resolved EmptyArray)
       \<and> then_p (readSass e p relativeTo) f =
           (if \<not> truthy relativeTo \<or> relativeTo = Some ''/''
            then ([Emit (SassRender p)], Rejected err)
            else ([Emit (SassRender p)] @ fst (f EmptyArray), snd (f EmptyArray)))"
  using assms by (simp add: readSass_def then_p_simps)

theorem readSass_failure_witness:
  "sass_render demo_env ''b.scss'' = Inl ''boom''
   \<and> snd (readSass demo_env ''b.scss'' None :: (string, content) async) = Rejected ''boom''
   \<and> snd (readSass demo_env ''b.scss'' (Some ''/'') :: (string, content) async) = Rejected ''boom''
   \<and> snd (readSass demo_env ''b.scss'' (Some []) :: (string, content) async) = Rejected ''boom''
   \<and> snd (readSass demo_env ''b.scss'' (Some ''src'') :: (string, content) async) = Resolved EmptyArray
   \<and> then_p (readSass demo_env ''b.scss'' None)
         (\<lambda>content. ([Emit (CreatorCreate ''b.scss'' content False) :: string step],
                      Resolved content)) =
       ([Emit (SassRender ''b.scss'')], Rejected ''boom'')
   \<and> then_p (readSass demo_env ''b.scss'' (Some ''src''))
         (\<lambda>content. ([Emit (CreatorCreate ''b.scss'' content False) :: string step],
                      Resolved content)) =
       ([Emit (SassRender ''b.scss''), Emit (CreatorCreate ''b.scss'' EmptyArray False)],
        Resolved EmptyArray)"
proof -
  let ?f = "\<lambda>content. ([Emit (CreatorCreate ''b.scss'' content False) :: string step],
                        Resolved content)"
  have h: "sass_render demo_env ''b.scss'' = Inl ''boom''"
    by (simp add: demo_env_sel)
  show ?thesis
    using h readSass_failure [OF h, of None ?f] readSass_failure [OF h, of "Some ''/''" ?f]
      readSass_failure [OF h, of "Some []" ?f] readSass_failure [OF h, of "Some ''src''" ?f]
    by (simp add: then_p_simps)
qed

section \<open>One pipeline\<close>



text \<open>
  C6. If the render, the generation and the write succeed for a path and the artifact
  has no warning, \<^verbatim>\<open>createTypings\<close> makes exactly these steps: the render, the
  generation, one \<^verbatim>\<open>writeFile\<close>, and the line \<^verbatim>\<open>Created ...\<close> if and only if
  \<^verbatim>\<open>verbose\<close> is set; it calls neither callback, and its promise resolves with the
  artifact.
\<close>

theorem createTypings_clean_success:
  assumes "sass_render e p = Inr css"
    and "create cr p (Css css) cache = Resolved c"
    and "writeFile c = Resolved a"
    and "warnings_of a = []"
  shows "createTypings e p cr cache hE hW verbose =
           ([Emit (SassRender p), Emit (CreatorCreate p (Css css) cache), Emit (DtsWriteFile c)]
            @ (if verbose
               then [Emit (ConsoleInfo (''Created '' @ chalk_green e (outputFilePath a)))]
               else []),
            Resolved (Some a))"
  using assms by (simp add: createTypings_cases)

theorem createTypings_clean_success_witness:
  "sass_render demo_env ''c.scss'' = Inr ''.x{}''
   \<and> create demo_creator ''c.scss'' (Css ''.x{}'') False =
       Resolved \<lparr>writeFile = Resolved \<lparr>outputFilePath = ''c.scss.d.ts'', messageList = Some []\<rparr>\<rparr>
   \<and> warnings_of \<lparr>outputFilePath = ''c.scss.d.ts'', messageList = Some []\<rparr> = []
   \<and> createTypings demo_env ''c.scss'' demo_creator False (\<lambda>m. m) (\<lambda>m::string. m) True =
       ([Emit (SassRender ''c.scss''), Emit (CreatorCreate ''c.scss'' (Css ''.x{}'') False),
         Emit (DtsWriteFile \<lparr>writeFile = Resolved \<lparr>outputFilePath = ''c.scss.d.ts'', messageList = Some []\<rparr>\<rparr>),
         Emit (ConsoleInfo ''Created c.scss.d.ts'')],
        Resolved (Some \<lparr>outputFilePath = ''c.scss.d.ts'', messageList = Some []\<rparr>))
   \<and> createTypings demo_env ''c.scss'' demo_creator False (\<lambda>m. m) (\<lambda>m::string. m) False =
       ([Emit (SassRender ''c.scss''), Emit (CreatorCreate ''c.scss'' (Css ''.x{}'') False),
         Emit (DtsWriteFile \<lparr>writeFile = Resolved \<lparr>outputFilePath = ''c.scss.d.ts'', messageList = Some []\<rparr>\<rparr>)],
        Resolved (Some \<lparr>outputFilePath = ''c.scss.d.ts'', messageList = Some []\<rparr>))"
proof -
  let ?a = "\<lparr>outputFilePath = ''c.scss.d.ts'', messageList = Some []\<rparr>"
  let ?c = "\<lparr>writeFile = Resolved ?a\<rparr>"
  have h1: "sass_render demo_env ''c.scss'' = Inr ''.x{}''"
    by (simp add: demo_env_sel)
  have h2: "create demo_creator ''c.scss'' (Css ''.x{}'') False = Resolved ?c"
    by (simp add: demo_creator_def)
  have h3: "writeFile ?c = Resolved ?a"
    by simp
  have h4: "warnings_of ?a = []"
    by (simp add: warnings_of_def)
  show ?thesis
    using h1 h2 h4
      createTypings_clean_success [OF h1 h2 h3 h4, of "\<lambda>m. m" "\<lambda>m. m" True]
      createTypings_clean_success [OF h1 h2 h3 h4, of "\<lambda>m. m" "\<lambda>m. m" False]
    by (simp add: demo_env_sel)
qed

text \<open>
  C7. If the pipeline succeeds and the artifact carries a warning list, the callbacks
  called are \<^verbatim>\<open>handleWarning\<close>, once for each warning and in the order of the list,
  each with the title line \<^verbatim>\<open>WARNING: path\<close> in yellow, a line break and the warning;
  the promise resolves with the artifact.
\<close>

theorem createTypings_warnings_in_order:
  assumes "outcome e cr cache p = Inr a"
    and "messageList a = Some ms"
  shows "snd (createTypings e p cr cache hE hW verbose) = Resolved (Some a)
       \<and> filter is_callback (fst (createTypings e p cr cache hE hW verbose)) =
           map (\<lambda>message. OnWarning (hW (chalk_yellow e (''WARNING: '' @ p) @ newline @ message))) ms"
proof -
  have "filter is_callback (map (\<lambda>m. OnWarning (hW (warningMessage e p m))) xs) =
          map (\<lambda>m. OnWarning (hW (warningMessage e p m))) xs" for xs
    by (induction xs) simp_all
  then have "filter is_callback (fst (createTypings e p cr cache hE hW verbose)) =
          map (\<lambda>m. OnWarning (hW (warningMessage e p m))) ms"
    using assms
    by (auto simp add: createTypings_cases outcome_def warnings_of_def
        split: sum.splits promise.splits)
  then show ?thesis
    using assms(1) by (simp add: createTypings_resolves warningMessage_def)
qed

theorem createTypings_warnings_in_order_witness:
  "outcome demo_env demo_creator True ''a.scss'' =
     Inr \<lparr>outputFilePath = ''a.scss.d.ts'', messageList = Some [''w1'', ''w2'']\<rparr>
   \<and> snd (createTypings demo_env ''a.scss'' demo_creator True (\<lambda>m. m) (\<lambda>m. m) False) =
       Resolved (Some \<lparr>outputFilePath = ''a.scss.d.ts'', messageList = Some [''w1'', ''w2'']\<rparr>)
   \<and> filter is_callback (fst (createTypings demo_env ''a.scss'' demo_creator True (\<lambda>m. m) (\<lambda>m. m) False)) =
       [OnWarning (''WARNING: a.scss'' @ newline @ ''w1''),
        OnWarning (''WARNING: a.scss'' @ newline @ ''w2'')]"
proof -
  let ?a = "\<lparr>outputFilePath = ''a.scss.d.ts'', messageList = Some [''w1'', ''w2'']\<rparr>"
  have h1: "outcome demo_env demo_creator True ''a.scss'' = Inr ?a"
    by (simp add: outcome_demo)
  have h2: "messageList ?a = Some [''w1'', ''w2'']"
    by simp
  show ?thesis
    using h1 createTypings_warnings_in_order [OF h1 h2, of "\<lambda>m. m" "\<lambda>m. m" False]
    by (simp add: demo_env_sel)
qed

text \<open>
  C10. If the artifact that \<^verbatim>\<open>writeFile\<close> resolves with has no \<^verbatim>\<open>messageList\<close>
  (absent or null), the pipeline resolves with the artifact and calls no callback:
  no warning, and no error for the missing field.
\<close>

theorem createTypings_without_messageList:
  assumes "outcome e cr cache p = Inr a"
    and "messageList a = None"
  shows "snd (createTypings e p cr cache hE hW verbose) = Resolved (Some a)
       \<and> filter is_callback (fst (createTypings e p cr cache hE hW verbose)) = []"
  using assms
  by (auto simp add: createTypings_cases outcome_def warnings_of_def
      split: sum.splits promise.splits)

theorem createTypings_without_messageList_witness:
  "outcome demo_env demo_creator False ''d.scss'' =
     Inr \<lparr>outputFilePath = ''d.scss.d.ts'', messageList = None\<rparr>
   \<and> snd (createTypings demo_env ''d.scss'' demo_creator False (\<lambda>m. m) (\<lambda>m::string. m) True) =
       Resolved (Some \<lparr>outputFilePath = ''d.scss.d.ts'', messageList = None\<rparr>)
   \<and> filter is_callback (fst (createTypings demo_env ''d.scss'' demo_creator False (\<lambda>m. m) (\<lambda>m::string. m) True)) = []"
proof -
  let ?a = "\<lparr>outputFilePath = ''d.scss.d.ts'', messageList = None\<rparr>"
  have h1: "outcome demo_env demo_creator False ''d.scss'' = Inr ?a"
    by (simp add: outcome_demo)
  have h2: "messageList ?a = None"
    by simp
  show ?thesis
    using h1 createTypings_without_messageList [OF h1 h2, of "\<lambda>m. m" "\<lambda>m. m" True]
    by simp
qed

section \<open>Accounting\<close>

text \<open>
  C3. A batch logs the events of all its pipelines, every step of every pipeline and
  nothing else, and after them the line
  \<^verbatim>\<open>Completed with {warnings} warnings and {errors} errors.\<close> when the sum of the two
  counters is positive, and nothing when both are zero; so the log of a batch holds
  exactly one summary line in the first case and none in the second. The counters are
  the warnings of the written artifacts and the number of failed paths. A call of the
  watch handler logs the events of its pipeline and then, only when the sum is
  positive, the line \<^verbatim>\<open>{path}: {warnings} warnings, {errors} errors\<close>.
\<close>

theorem accounting_summary:
  "(let steps = interleave sched (map (pipeline_steps e cr cache verbose) ps);
        w = sum_list (map (path_warnings e cr cache) ps);
        n = sum_list (map (path_errors e cr cache) ps)
    in createTypingsForFiles e cr cache verbose ps sched =
         map console_of steps
         @ (if w + n > 0
            then [ConsoleInfo (''Completed with '' @ decimal w @ '' warnings and ''
                               @ decimal n @ '' errors.'')]
            else [])
       \<and> mset steps = mset (concat (map (pipeline_steps e cr cache verbose) ps))
       \<and> length (filter is_batch_summary (createTypingsForFiles e cr cache verbose ps sched)) =
           (if w + n > 0 then 1 else 0))
   \<and> (let w = path_warnings e cr cache p;
          n = path_errors e cr cache p
      in createTypingsForFileOnWatch e cr cache verbose p =
           map console_of (pipeline_steps e cr cache verbose p)
           @ (if w + n > 0
              then [ConsoleInfo (p @ '': '' @ decimal w @ '' warnings, ''
                                 @ decimal n @ '' errors'')]
              else []))"
proof -
  have "length (filter is_batch_summary (createTypingsForFiles e cr cache verbose ps sched)) =
          (if sum_list (map (path_warnings e cr cache) ps)
              + sum_list (map (path_errors e cr cache) ps) > 0 then 1 else 0)"
    by (simp only: createTypingsForFiles_log filter_append interleave_no_summary
        append_Nil batch_summary_count)
  then show ?thesis
    unfolding Let_def
    by (simp only: createTypingsForFiles_log createTypingsForFileOnWatch_log mset_interleave
        batch_summary_def watch_summary_def simp_thms)
qed

theorem accounting_summary_witness:
  "createTypingsForFiles demo_env demo_creator False False [''a.scss'', ''b.scss''] [1, 0] =
     [SassRender ''b.scss'',
      SassRender ''a.scss'',
      CreatorCreate ''a.scss'' (Css ''.x{}'') False,
      DtsWriteFile \<lparr>writeFile = Resolved
         \<lparr>outputFilePath = ''a.scss.d.ts'', messageList = Some [''w1'', ''w2'']\<rparr>\<rparr>,
      ConsoleWarn (''WARNING: a.scss'' @ newline @ ''w1''),
      ConsoleWarn (''WARNING: a.scss'' @ newline @ ''w2''),
      ConsoleError (''ERROR: b.scss'' @ newline @ ''boom''),
      ConsoleInfo ''Completed with 2 warnings and 1 errors.'']
   \<and> length (filter is_batch_summary
        (createTypingsForFiles demo_env demo_creator False False [''a.scss'', ''b.scss''] [1, 0])) = 1
   \<and> createTypingsForFileOnWatch demo_env demo_creator False False ''b.scss'' =
       [SassRender ''b.scss'',
        ConsoleError (''ERROR: b.scss'' @ newline @ ''boom''),
        ConsoleInfo ''b.scss: 0 warnings, 1 errors'']
   \<and> createTypingsForFiles demo_env demo_creator False False [''c.scss''] [] =
       [SassRender ''c.scss'',
        CreatorCreate ''c.scss'' (Css ''.x{}'') False,
        DtsWriteFile \<lparr>writeFile = Resolved
           \<lparr>outputFilePath = ''c.scss.d.ts'', messageList = Some []\<rparr>\<rparr>]
   \<and> createTypingsForFileOnWatch demo_env demo_creator False False ''c.scss'' =
       [SassRender ''c.scss'',
        CreatorCreate ''c.scss'' (Css ''.x{}'') False,
        DtsWriteFile \<lparr>writeFile = Resolved
           \<lparr>outputFilePath = ''c.scss.d.ts'', messageList = Some []\<rparr>\<rparr>]"
  using accounting_summary
    [of "[1, 0]" demo_env demo_creator False False "[''a.scss'', ''b.scss'']" "''b.scss''"]
    accounting_summary
    [of "[]" demo_env demo_creator False False "[''c.scss'']" "''c.scss''"]
  by (simp add: Let_def counts_demo steps_demo decimal_digits is_batch_summary_def)

text \<open>
  C5. For a non-empty path list and any schedule: the counters of the batch start at
  zero; no step makes either of them smaller; the steps run before \<^verbatim>\<open>onComplete\<close>
  are all the steps of all the pipelines; the sum of the counters that
  \<^verbatim>\<open>onComplete\<close> reads is the number of callback calls of all the pipelines; and the
  summary, printed after the log of these steps, shows these two counters.
\<close>

theorem batch_counters:
  assumes "ps \<noteq> []"
  shows "let steps = interleave sched
                       (map (\<lambda>p. fst (createTypings e p cr cache handleError handleWarning verbose)) ps);
             s = fold perform steps cycle0
         in warnings cycle0 = 0 \<and> errors cycle0 = 0
          \<and> (\<forall>k. warnings (fold perform (take k steps) cycle0)
                     \<le> warnings (fold perform (take (Suc k) steps) cycle0)
                 \<and> errors (fold perform (take k steps) cycle0)
                     \<le> errors (fold perform (take (Suc k) steps) cycle0))
          \<and> mset steps =
              mset (concat (map (\<lambda>p. fst (createTypings e p cr cache handleError handleWarning verbose)) ps))
          \<and> warnings s + errors s =
              sum_list (map (\<lambda>p. length (filter is_callback
                               (fst (createTypings e p cr cache handleError handleWarning verbose)))) ps)
          \<and> createTypingsForFiles e cr cache verbose ps sched =
              log s @ (if warnings s + errors s > 0
                       then [ConsoleInfo (''Completed with '' @ decimal (warnings s)
                                          @ '' warnings and '' @ decimal (errors s) @ '' errors.'')]
                       else [])"
proof -
  let ?tr = "interleave sched (map (pipeline_steps e cr cache verbose) ps)"
  let ?steps = "interleave sched
                  (map (\<lambda>p. fst (createTypings e p cr cache handleError handleWarning verbose)) ps)"
  let ?s = "fold perform ?steps cycle0"
  have steps: "?steps = map (with_handlers handleError handleWarning) ?tr"
    by (simp only: map_fst_createTypings interleave_map)
  have zero: "warnings cycle0 = 0 \<and> errors cycle0 = 0"
    by (simp add: cycle0_def)
  have mono: "warnings (fold perform (take k ?steps) cycle0)
                \<le> warnings (fold perform (take (Suc k) ?steps) cycle0)
            \<and> errors (fold perform (take k ?steps) cycle0)
                \<le> errors (fold perform (take (Suc k) ?steps) cycle0)" for k
    unfolding steps prefix_state
    by (simp add: length_filter_take_mono del: take_Suc_Cons)
  have all: "mset ?steps =
      mset (concat (map (\<lambda>p. fst (createTypings e p cr cache handleError handleWarning verbose)) ps))"
    by (rule mset_interleave)
  have total: "warnings ?s + errors ?s =
      sum_list (map (\<lambda>p. length (filter is_callback
                       (fst (createTypings e p cr cache handleError handleWarning verbose)))) ps)"
    by (simp add: batch_state createTypings_callbacks sum_list_addf)
  have summary: "createTypingsForFiles e cr cache verbose ps sched =
      log ?s @ batch_summary (warnings ?s) (errors ?s)"
    by (simp add: batch_state createTypingsForFiles_log)
  show ?thesis
    unfolding Let_def
    using zero mono all total summary [unfolded batch_summary_def]
    by blast
qed

theorem batch_counters_witness:
  "[''a.scss'', ''b.scss''] \<noteq> []
   \<and> sum_list (map (\<lambda>p. length (filter is_callback
          (fst (createTypings demo_env p demo_creator False handleError handleWarning False))))
        [''a.scss'', ''b.scss'']) = 3
   \<and> warnings (fold perform (interleave [1, 0]
          (map (\<lambda>p. fst (createTypings demo_env p demo_creator False handleError handleWarning False))
               [''a.scss'', ''b.scss''])) cycle0) = 2
   \<and> errors (fold perform (interleave [1, 0]
          (map (\<lambda>p. fst (createTypings demo_env p demo_creator False handleError handleWarning False))
               [''a.scss'', ''b.scss''])) cycle0) = 1
   \<and> last (createTypingsForFiles demo_env demo_creator False False [''a.scss'', ''b.scss''] [1, 0]) =
       ConsoleInfo ''Completed with 2 warnings and 1 errors.''"
proof -
  have h: "[''a.scss'', ''b.scss''] \<noteq> []"
    by simp
  show ?thesis
    using batch_counters [OF h, of "[1, 0]" demo_env demo_creator False False]
    by (simp only: Let_def batch_state createTypings_callbacks)
       (simp add: counts_demo steps_demo decimal_digits)
qed

text \<open>
  C2. Each \<^verbatim>\<open>add\<close> or \<^verbatim>\<open>change\<close> event is one call of the watch handler, and the
  summary of a call counts the warnings and errors of the pipeline of its own path only,
  whatever events came before, under every schedule. Events handled one after the other
  give their logs one after the other, each closed by its own summary. The counters of
  a call are zero when the handler fires, and when its pipeline has settled they are the
  warnings and the errors of that pipeline.
\<close>

theorem watch_events_counted_separately:
  "watcher_on (createTypingsForFileOnWatch e cr cache verbose) sched fs_events =
     interleave sched
       (map (\<lambda>(name, p).
               map console_of (pipeline_steps e cr cache verbose p)
               @ (if path_warnings e cr cache p + path_errors e cr cache p > 0
                  then [ConsoleInfo (p @ '': '' @ decimal (path_warnings e cr cache p)
                                     @ '' warnings, '' @ decimal (path_errors e cr cache p)
                                     @ '' errors'')]
                  else []))
            (filter (\<lambda>(name, p). name = ''add'' \<or> name = ''change'') fs_events))
   \<and> watcher_on (createTypingsForFileOnWatch e cr cache verbose) [] fs_events =
       concat
         (map (\<lambda>(name, p).
                 map console_of (pipeline_steps e cr cache verbose p)
                 @ (if path_warnings e cr cache p + path_errors e cr cache p > 0
                    then [ConsoleInfo (p @ '': '' @ decimal (path_warnings e cr cache p)
                                       @ '' warnings, '' @ decimal (path_errors e cr cache p)
                                       @ '' errors'')]
                    else []))
              (filter (\<lambda>(name, p). name = ''add'' \<or> name = ''change'') fs_events))
   \<and> fold perform (fst (createTypings e q cr cache handleError handleWarning verbose))
         \<lparr>log = [], warnings = 0, errors = 0\<rparr> =
       \<lparr>log = map console_of (pipeline_steps e cr cache verbose q),
        warnings = path_warnings e cr cache q,
        errors = path_errors e cr cache q\<rparr>"
  by (simp add: watcher_on_def createTypingsForFileOnWatch_log watch_summary_def
      watch_state [unfolded cycle0_def])

theorem watch_events_counted_separately_witness:
  "watcher_on (createTypingsForFileOnWatch demo_env demo_creator True False) []
     [(''add'', ''a.scss''), (''unlink'', ''c.scss''), (''change'', ''b.scss'')] =
     [SassRender ''a.scss'',
      CreatorCreate ''a.scss'' (Css ''.x{}'') True,
      DtsWriteFile \<lparr>writeFile = Resolved
         \<lparr>outputFilePath = ''a.scss.d.ts'', messageList = Some [''w1'', ''w2'']\<rparr>\<rparr>,
      ConsoleWarn (''WARNING: a.scss'' @ newline @ ''w1''),
      ConsoleWarn (''WARNING: a.scss'' @ newline @ ''w2''),
      ConsoleInfo ''a.scss: 2 warnings, 0 errors'',
      SassRender ''b.scss'',
      ConsoleError (''ERROR: b.scss'' @ newline @ ''boom''),
      ConsoleInfo ''b.scss: 0 warnings, 1 errors'']
   \<and> warnings (fold perform
         (fst (createTypings demo_env ''b.scss'' demo_creator True handleError handleWarning False))
         \<lparr>log = [], warnings = 0, errors = 0\<rparr>) = 0
   \<and> errors (fold perform
         (fst (createTypings demo_env ''b.scss'' demo_creator True handleError handleWarning False))
         \<lparr>log = [], warnings = 0, errors = 0\<rparr>) = 1"
  using watch_events_counted_separately
    [of demo_env demo_creator True False "[]"
        "[(''add'', ''a.scss''), (''unlink'', ''c.scss''), (''change'', ''b.scss'')]" "''b.scss''"]
  by (simp add: counts_demo steps_demo decimal_digits)

section \<open>The mode selector\<close>

text \<open>
  C8. In batch mode (no help flag, an input directory that exists, watch flag unset)
  \<^verbatim>\<open>main\<close> calls \<^verbatim>\<open>glob\<close> and then: on an error, prints the error and does nothing
  more; on no path list or an empty one, prints the zero-file notice once and does
  nothing more; otherwise prints the number of files and runs
  \<^verbatim>\<open>createTypingsForFiles\<close> with the cache flag unset on the paths found, whose renders
  are exactly these paths.
\<close>

theorem main_batch_mode:
  assumes "\<not> argv_h a" and "argv_inputDir a = Some dir" and "fs_existsSync e dir"
    and "\<not> argv_w a"
  shows "let filesPattern = path_join_trim e dir (argv_p a);
             globOptions = (if truthy (argv_i a) then argv_i a else None);
             cr = new_DtsCreator e
                    \<lparr>rootDir = process_cwd e, searchDir = dir, outDir = argv_o a,
                     camelCase = argv_c a, dropExtension = argv_d a\<rparr>
         in case glob e filesPattern globOptions of
              GlobErr err \<Rightarrow>
                main e a sched fs_events = [Glob filesPattern globOptions, ConsoleError err]
            | GlobOk None \<Rightarrow>
                main e a sched fs_events =
                  [Glob filesPattern globOptions, ConsoleInfo ''Creating typings for 0 files'']
            | GlobOk (Some pathNames) \<Rightarrow>
                if pathNames = []
                then main e a sched fs_events =
                       [Glob filesPattern globOptions, ConsoleInfo ''Creating typings for 0 files'']
                else main e a sched fs_events =
                       [Glob filesPattern globOptions,
                        ConsoleInfo (''Creating typings for '' @ decimal (length pathNames)
                                     @ '' files'' @ newline)]
                       @ createTypingsForFiles e cr False (argv_v a) pathNames sched
                   \<and> mset (filter is_render (main e a sched fs_events)) =
                       mset (map SassRender pathNames)"
  using assms
  by (simp add: main_def Let_def createTypingsForFiles_renders [simplified]
      split: glob_outcome.splits option.splits)

theorem main_batch_mode_witness:
  "\<not> argv_h demo_argv \<and> argv_inputDir demo_argv = Some ''src''
   \<and> fs_existsSync demo_env ''src'' \<and> \<not> argv_w demo_argv
   \<and> main demo_env demo_argv [] [] =
       [Glob ''src/*.scss'' None, ConsoleInfo (''Creating typings for 2 files'' @ newline)]
       @ createTypingsForFiles demo_env demo_creator False False [''a.scss'', ''b.scss''] []
   \<and> mset (filter is_render (main demo_env demo_argv [] [])) =
       mset [SassRender ''a.scss'', SassRender ''b.scss'']
   \<and> main demo_env (demo_argv\<lparr>argv_inputDir := Some ''none''\<rparr>) [] [] =
       [Glob ''none/*.scss'' None, ConsoleInfo ''Creating typings for 0 files'']
   \<and> main demo_env (demo_argv\<lparr>argv_inputDir := Some ''etc''\<rparr>) [] [] =
       [Glob ''etc/*.scss'' None, ConsoleError ''EACCES'']"
proof -
  have h: "\<not> argv_h demo_argv" "argv_inputDir demo_argv = Some ''src''"
    "fs_existsSync demo_env ''src''" "\<not> argv_w demo_argv"
    by (simp_all add: demo_argv_def demo_env_sel)
  have h1: "\<not> argv_h (demo_argv\<lparr>argv_inputDir := Some ''none''\<rparr>)"
    "argv_inputDir (demo_argv\<lparr>argv_inputDir := Some ''none''\<rparr>) = Some ''none''"
    "fs_existsSync demo_env ''none''" "\<not> argv_w (demo_argv\<lparr>argv_inputDir := Some ''none''\<rparr>)"
    by (simp_all add: demo_argv_def demo_env_sel)
  have h2: "\<not> argv_h (demo_argv\<lparr>argv_inputDir := Some ''etc''\<rparr>)"
    "argv_inputDir (demo_argv\<lparr>argv_inputDir := Some ''etc''\<rparr>) = Some ''etc''"
    "fs_existsSync demo_env ''etc''" "\<not> argv_w (demo_argv\<lparr>argv_inputDir := Some ''etc''\<rparr>)"
    by (simp_all add: demo_argv_def demo_env_sel)
  show ?thesis
    using h main_batch_mode [OF h, of "[]" "[]"] main_batch_mode [OF h1, of "[]" "[]"]
      main_batch_mode [OF h2, of "[]" "[]"]
    by (simp add: Let_def demo_argv_def demo_env_sel decimal_digits
        createTypingsForFiles_renders [simplified])
qed

text \<open>
  C9. Every call of \<^verbatim>\<open>creator.create\<close> made in a run of \<^verbatim>\<open>main\<close> gets the watch flag
  as its cache argument: true in watch mode, false in batch mode.
\<close>

theorem cache_flag_is_watch_flag:
  assumes "CreatorCreate p content cache \<in> set (main e a sched fs_events)"
  shows "cache = argv_w a"
  using assms
  by (auto simp add: main_def Let_def split: if_splits option.splits glob_outcome.splits
      dest: createTypingsForFiles_cache watcher_on_cache)

theorem cache_flag_is_watch_flag_witness:
  "CreatorCreate ''a.scss'' (Css ''.x{}'') True
     \<in> set (main demo_env (demo_argv\<lparr>argv_w := True\<rparr>) [] [(''add'', ''a.scss'')])
   \<and> True = argv_w (demo_argv\<lparr>argv_w := True\<rparr>)
   \<and> CreatorCreate ''a.scss'' (Css ''.x{}'') False \<in> set (main demo_env demo_argv [] [])
   \<and> False = argv_w demo_argv"
proof -
  have h1: "CreatorCreate ''a.scss'' (Css ''.x{}'') True
      \<in> set (main demo_env (demo_argv\<lparr>argv_w := True\<rparr>) [] [(''add'', ''a.scss'')])"
    by (simp add: main_def Let_def demo_argv_def demo_env_sel watcher_on_def
        createTypingsForFileOnWatch_log steps_demo)
  have h2: "CreatorCreate ''a.scss'' (Css ''.x{}'') False \<in> set (main demo_env demo_argv [] [])"
    by (simp add: main_def Let_def demo_argv_def demo_env_sel createTypingsForFiles_log steps_demo)
  show ?thesis
    using h1 h2 cache_flag_is_watch_flag [OF h1] cache_flag_is_watch_flag [OF h2]
    by simp
qed

end
